theory Spec2Isabelle
  imports Main "HOL-Library.Char_ord" "HOL-Library.List_Lexorder"
begin

section \<open>Text\<close>

text \<open>
  Python strings are sequences of code points. The model works on \<^typ>\<open>string\<close>, whose
  characters are read as the code points 0 to 255; commands with code points beyond that
  range are outside the model. The character tables below are those of Python 3 restricted
  to that range: \<open>str.isspace\<close> (also the regular-expression class \<open>\s\<close>),
  \<open>str.isalnum\<close> (the class \<open>\w\<close> is \<open>isalnum\<close> or underscore) and
  \<open>str.lower\<close>.
\<close>

definition isspace :: "char \<Rightarrow> bool" where
  "isspace c \<longleftrightarrow> c \<in> set [CHR 0x09, CHR 0x0A, CHR 0x0B, CHR 0x0C, CHR 0x0D,
     CHR 0x1C, CHR 0x1D, CHR 0x1E, CHR 0x1F, CHR 0x20, CHR 0x85, CHR 0xA0]"

definition ascii_alpha :: "char \<Rightarrow> bool" where
  "ascii_alpha c \<longleftrightarrow>
     (CHR ''a'' \<le> c \<and> c \<le> CHR ''z'') \<or> (CHR ''A'' \<le> c \<and> c \<le> CHR ''Z'')"

definition isalnum :: "char \<Rightarrow> bool" where
  "isalnum c \<longleftrightarrow> ascii_alpha c \<or> (CHR ''0'' \<le> c \<and> c \<le> CHR ''9'')
     \<or> c \<in> set [CHR 0xAA, CHR 0xB2, CHR 0xB3, CHR 0xB5, CHR 0xB9, CHR 0xBA,
                  CHR 0xBC, CHR 0xBD, CHR 0xBE]
     \<or> (CHR 0xC0 \<le> c \<and> c \<noteq> CHR 0xD7 \<and> c \<noteq> CHR 0xF7)"

definition lower :: "char \<Rightarrow> char" where
  "lower c =
     (if (CHR ''A'' \<le> c \<and> c \<le> CHR ''Z'') \<or> (CHR 0xC0 \<le> c \<and> c \<le> CHR 0xDE \<and> c \<noteq> CHR 0xD7)
      then char_of (of_char c + (32::nat)) else c)"

definition strip :: "string \<Rightarrow> string" where
  "strip s = rev (dropWhile isspace (rev (dropWhile isspace s)))"

fun is_prefix :: "string \<Rightarrow> string \<Rightarrow> bool" where
  "is_prefix [] s = True"
| "is_prefix (p # ps) [] = False"
| "is_prefix (p # ps) (c # cs) = (p = c \<and> is_prefix ps cs)"

text \<open>Python's \<open>needle in haystack\<close> on strings.\<close>

fun contains :: "string \<Rightarrow> string \<Rightarrow> bool" where
  "contains needle [] = (needle = [])"
| "contains needle (c # cs) = (is_prefix needle (c # cs) \<or> contains needle cs)"

text \<open>
  The horizontal ellipsis U+2026 of the rule descriptions and of the verifier's messages
  has no character in this model; it is carried as the three bytes of its UTF-8 form.
  It occurs only in texts that are stored and compared whole.
\<close>

definition ellipsis :: string where
  "ellipsis = [CHR 0xE2, CHR 0x80, CHR 0xA6]"

section \<open>Regular expressions\<close>

text \<open>
  The fragment of Python's \<open>re\<close> syntax that the rule tables use, under the flag
  \<open>re.I\<close> every pattern is compiled with:
  \<open>Lit c\<close> a literal character, compared case-insensitively; \<open>AnyChar\<close> the dot (any
  character but a newline); \<open>Space\<close> is \<open>\s\<close>; \<open>WordCh\<close> is \<open>\w\<close>; \<open>Letter\<close> is
  \<open>[A-Za-z]\<close>; \<open>Bol\<close> is \<open>^\<close>; \<open>Eol\<close> is \<open>$\<close> (the end of the text, or just before
  a final newline); \<open>WordB\<close> is \<open>\b\<close>. None of the patterns has a back-reference, so
  whether \<open>search\<close> finds a match does not depend on the order in which a backtracking
  matcher tries the alternatives.

  A position in the subject is the character before it (if any) and the text after it.
  \<open>ends r st\<close> lists the positions at which a match of \<open>r\<close> that starts at \<open>st\<close> can end.
\<close>

datatype regex = Lit char | AnyChar | Space | WordCh | Letter | Bol | Eol | WordB | Eps
  | Seq regex regex | Alt regex regex | Star regex

type_synonym pos = "char option \<times> string"

definition is_word :: "char option \<Rightarrow> bool" where
  "is_word p = (case p of None \<Rightarrow> False | Some c \<Rightarrow> isalnum c \<or> c = CHR ''_'')"

definition step_if :: "(char \<Rightarrow> bool) \<Rightarrow> pos \<Rightarrow> pos list" where
  "step_if P st = (case snd st of [] \<Rightarrow> [] | c # cs \<Rightarrow> if P c then [(Some c, cs)] else [])"

definition assert_if :: "bool \<Rightarrow> pos \<Rightarrow> pos list" where
  "assert_if b st = (if b then [st] else [])"

primrec star_iter :: "nat \<Rightarrow> (pos \<Rightarrow> pos list) \<Rightarrow> pos \<Rightarrow> pos list" where
  "star_iter 0 f st = [st]"
| "star_iter (Suc n) f st =
     st # concat (map (star_iter n f)
                    (filter (\<lambda>st'. length (snd st') < length (snd st)) (f st)))"

primrec ends :: "regex \<Rightarrow> pos \<Rightarrow> pos list" where
  "ends (Lit p) = step_if (\<lambda>c. lower c = lower p)"
| "ends AnyChar = step_if (\<lambda>c. c \<noteq> CHR 0x0A)"
| "ends Space = step_if isspace"
| "ends WordCh = step_if (\<lambda>c. isalnum c \<or> c = CHR ''_'')"
| "ends Letter = step_if ascii_alpha"
| "ends Bol = (\<lambda>st. assert_if (fst st = None) st)"
| "ends Eol = (\<lambda>st. assert_if (snd st = [] \<or> snd st = [CHR 0x0A]) st)"
| "ends WordB = (\<lambda>st. assert_if
     (is_word (fst st) \<noteq> is_word (case snd st of [] \<Rightarrow> None | c # _ \<Rightarrow> Some c)) st)"
| "ends Eps = (\<lambda>st. [st])"
| "ends (Seq r1 r2) = (\<lambda>st. concat (map (ends r2) (ends r1 st)))"
| "ends (Alt r1 r2) = (\<lambda>st. ends r1 st @ ends r2 st)"
| "ends (Star r) = (\<lambda>st. star_iter (length (snd st)) (ends r) st)"

fun positions :: "char option \<Rightarrow> string \<Rightarrow> pos list" where
  "positions p [] = [(p, [])]"
| "positions p (c # cs) = (p, c # cs) # positions (Some c) cs"

text \<open>\<open>pattern.search(s)\<close>, as a truth value: a match starts at some position of \<open>s\<close>.\<close>

definition search :: "regex \<Rightarrow> string \<Rightarrow> bool" where
  "search r s = list_ex (\<lambda>st. ends r st \<noteq> []) (positions None s)"

definition lit :: "string \<Rightarrow> regex" where
  "lit s = foldr (\<lambda>c r. Seq (Lit c) r) s Eps"

definition seqs :: "regex list \<Rightarrow> regex" where
  "seqs rs = foldr Seq rs Eps"

primrec alts :: "regex \<Rightarrow> regex list \<Rightarrow> regex" where
  "alts r [] = r"
| "alts r (x # xs) = Alt r (alts x xs)"

definition some1 :: "regex \<Rightarrow> regex" where
  "some1 r = Seq r (Star r)"

definition maybe :: "regex \<Rightarrow> regex" where
  "maybe r = Alt r Eps"

section \<open>Classifier\<close>

definition SAFE_ECHO :: string where "SAFE_ECHO = ''safe_echo''"
definition SHELL_RUN :: string where "SHELL_RUN = ''shell_run''"
definition FILE_DELETE :: string where "FILE_DELETE = ''file_delete''"
definition NETWORK_EXEC :: string where "NETWORK_EXEC = ''network_exec''"
definition PRIVILEGE_ESCALATION :: string where "PRIVILEGE_ESCALATION = ''privilege_escalation''"
definition DISK_FORMAT :: string where "DISK_FORMAT = ''disk_format''"
definition PROCESS_KILL :: string where "PROCESS_KILL = ''process_kill''"
definition SYSTEM_CONFIG :: string where "SYSTEM_CONFIG = ''system_config''"

definition ALL_INTENTS :: "string list" where
  "ALL_INTENTS = [SAFE_ECHO, SHELL_RUN, FILE_DELETE, NETWORK_EXEC, PRIVILEGE_ESCALATION,
     DISK_FORMAT, PROCESS_KILL, SYSTEM_CONFIG]"

record Rule =
  intent :: string
  pattern :: regex

text \<open>The prefix \<open>(^|\||\;|\&\&)\s*\<close> that anchors a rule at the start of a command.\<close>

definition cmd_start :: regex where
  "cmd_start = Seq (alts Bol [Lit CHR ''|'', Lit CHR '';'', lit ''&&'']) (Star Space)"

definition RULES :: "Rule list" where
  "RULES = [
     \<lparr>intent = DISK_FORMAT, pattern = seqs [cmd_start,
        alts (lit ''mkfs'') [seqs [lit ''format'', some1 Space, some1 WordCh, Lit CHR '':''],
                             lit ''diskpart'', seqs [lit ''dd'', some1 Space]]]\<rparr>,
     \<lparr>intent = DISK_FORMAT, pattern = seqs [WordB, lit ''dd'', WordB, Star AnyChar, WordB,
        lit ''of=/dev/'']\<rparr>,
     \<lparr>intent = NETWORK_EXEC, pattern = seqs [alts (lit ''curl'') [lit ''wget''], some1 Space,
        Star AnyChar, Lit CHR ''|'', Star Space, maybe (lit ''ba''), lit ''sh'']\<rparr>,
     \<lparr>intent = NETWORK_EXEC, pattern = seqs [lit ''powershell'', some1 Space, Star AnyChar,
        alts (seqs [WordB, lit ''iex'', WordB]) [seqs [WordB, lit ''Invoke-Expression'', WordB],
          seqs [WordB, lit ''iwr'', WordB, Star AnyChar, Lit CHR ''|'', Star Space, lit ''iex'']]]\<rparr>,
     \<lparr>intent = NETWORK_EXEC, pattern = seqs [
        alts (lit ''curl'') [lit ''wget'', lit ''Invoke-WebRequest'', lit ''iwr''], some1 Space,
        Star AnyChar, Lit CHR ''|'', Star Space,
        alts (lit ''iex'') [lit ''Invoke-Expression'', lit ''sh'', lit ''bash'']]\<rparr>,
     \<lparr>intent = FILE_DELETE, pattern = seqs [cmd_start, lit ''rm'', some1 Space]\<rparr>,
     \<lparr>intent = FILE_DELETE, pattern = seqs [cmd_start,
        alts (lit ''del'') [lit ''rmdir'', lit ''Remove-Item''], some1 Space]\<rparr>,
     \<lparr>intent = PRIVILEGE_ESCALATION, pattern = seqs [cmd_start,
        alts (lit ''sudo'') [lit ''doas'', lit ''runas'', lit ''pkexec''], some1 Space]\<rparr>,
     \<lparr>intent = PRIVILEGE_ESCALATION, pattern = seqs [WordB, lit ''chmod'', some1 Space,
        Star AnyChar, WordB, lit ''777'', WordB]\<rparr>,
     \<lparr>intent = PRIVILEGE_ESCALATION, pattern = seqs [WordB, lit ''chmod'', some1 Space,
        lit ''-R'', some1 Space]\<rparr>,
     \<lparr>intent = PROCESS_KILL, pattern = seqs [cmd_start,
        alts (lit ''kill'') [lit ''killall'', lit ''pkill''], some1 Space]\<rparr>,
     \<lparr>intent = PROCESS_KILL, pattern = seqs [cmd_start, lit ''taskkill'', some1 Space]\<rparr>,
     \<lparr>intent = SYSTEM_CONFIG, pattern = seqs [cmd_start,
        alts (lit ''sysctl'') [lit ''systemctl'', lit ''launchctl'',
          seqs [lit ''reg'', some1 Space, alts (lit ''add'') [lit ''delete'']]], some1 Space]\<rparr>,
     \<lparr>intent = SYSTEM_CONFIG, pattern = seqs [WordB, lit ''regedit'', WordB]\<rparr>,
     \<lparr>intent = SAFE_ECHO, pattern = seqs [Bol, Star Space, lit ''echo'', some1 Space]\<rparr>,
     \<lparr>intent = SAFE_ECHO, pattern = seqs [Bol, Star Space, lit ''printf'', some1 Space]\<rparr>]"

text \<open>The loop of \<open>classify\<close>: the intent of the first rule whose pattern is found.\<close>

fun first_rule :: "Rule list \<Rightarrow> string \<Rightarrow> string" where
  "first_rule [] cmd = SHELL_RUN"
| "first_rule (rule # rules) cmd =
     (if search (pattern rule) cmd then intent rule else first_rule rules cmd)"

definition classify :: "string \<Rightarrow> string" where
  "classify command = first_rule RULES (strip command)"

section \<open>Policy engine\<close>

datatype Decision = ALLOW | DENY

record BlockRule =
  description :: string
  pattern :: regex

text \<open>The tail \<open>-[A-Za-z]*x[A-Za-z]*y[A-Za-z]*\s+/\<close> of the root-deletion rules.\<close>

definition rm_flags :: "string \<Rightarrow> string \<Rightarrow> regex" where
  "rm_flags x y = seqs [WordB, lit ''rm'', some1 Space, Star AnyChar, Lit CHR ''-'',
     Star Letter, lit x, Star Letter, lit y, Star Letter, some1 Space, Lit CHR ''/'']"

definition ALWAYS_BLOCK :: "BlockRule list" where
  "ALWAYS_BLOCK = [
     \<lparr>description = ''Destructive root deletion (rm -rf /)'',
      pattern = seqs [rm_flags ''r'' ''f'', Star Space, Eol]\<rparr>,
     \<lparr>description = ''Destructive root deletion (rm -rf /)'',
      pattern = seqs [rm_flags ''f'' ''r'', Star Space, Eol]\<rparr>,
     \<lparr>description = ''Destructive root deletion (rm -rf /*)'',
      pattern = seqs [rm_flags ''r'' ''f'', Lit CHR ''*'']\<rparr>,
     \<lparr>description = ''Network download piped to shell execution (curl|wget '' @ ellipsis
        @ '' | bash/sh)'',
      pattern = seqs [alts (lit ''curl'') [lit ''wget''], some1 Space, Star AnyChar,
        Lit CHR ''|'', Star Space, maybe (lit ''ba''), lit ''sh'']\<rparr>,
     \<lparr>description = ''PowerShell download-and-execute pattern'',
      pattern = seqs [lit ''powershell'', some1 Space, Star AnyChar,
        alts (seqs [WordB, lit ''iex'', WordB]) [seqs [WordB, lit ''Invoke-Expression'', WordB]]]\<rparr>,
     \<lparr>description = ''PowerShell download-and-execute pattern'',
      pattern = seqs [alts (lit ''iwr'') [lit ''Invoke-WebRequest''], some1 Space, Star AnyChar,
        Lit CHR ''|'', Star Space, alts (lit ''iex'') [lit ''Invoke-Expression'']]\<rparr>,
     \<lparr>description = ''Disk formatting command (mkfs/format/diskpart)'',
      pattern = seqs [alts Bol [Space], alts (lit ''mkfs'') [lit ''diskpart''], WordB]\<rparr>,
     \<lparr>description = ''Disk formatting command (format drive)'',
      pattern = seqs [WordB, lit ''format'', some1 Space, Letter, Lit CHR '':'']\<rparr>,
     \<lparr>description = ''Destructive device write (dd '' @ ellipsis @ '' of=/dev/'' @ ellipsis
        @ '')'',
      pattern = seqs [WordB, lit ''dd'', WordB, Star AnyChar, WordB, lit ''of=/dev/'']\<rparr>]"

definition RISKY_INTENTS :: "string set" where
  "RISKY_INTENTS = {FILE_DELETE, PRIVILEGE_ESCALATION, PROCESS_KILL, SYSTEM_CONFIG}"

record PolicyResult =
  decision :: Decision
  reason :: string
  requires_auth :: bool
  suggestion :: "string option"

definition suggestion_for :: "string \<Rightarrow> string option" where
  "suggestion_for d =
     (let l = map lower d in
      if contains ''root deletion'' l
      then Some ''Delete specific paths instead: rm -rf ./my_folder''
      else if contains ''pipe'' l \<or> contains ''download'' l
      then Some (''Download the script first, review it, then run: ''
                 @ ''curl -O script.sh && cat script.sh && bash script.sh'')
      else if contains ''format'' l \<or> contains ''diskpart'' l
      then Some ''Use safe disk utilities with explicit confirmation.''
      else if contains ''dd'' l \<or> contains ''device write'' l
      then Some ''Double-check the target device; use a file path instead of a block device.''
      else None)"

definition suggestion_for_intent :: "string \<Rightarrow> string \<Rightarrow> string option" where
  "suggestion_for_intent i command =
     (if i = FILE_DELETE
      then Some ''Use guardian allow file_delete --ttl 30 to pre-authorize, or confirm interactively.''
      else if i = PRIVILEGE_ESCALATION
      then Some ''Review the command carefully. Use guardian allow privilege_escalation --ttl 30.''
      else if i = PROCESS_KILL
      then Some ''Consider graceful termination (kill <pid>) before kill -9.''
      else if i = SYSTEM_CONFIG
      then Some ''Back up your configuration first.''
      else None)"

text \<open>Gate 1 of \<open>evaluate\<close>: the first block rule whose pattern is found in the command.\<close>

fun first_block :: "BlockRule list \<Rightarrow> string \<Rightarrow> BlockRule option" where
  "first_block [] command = None"
| "first_block (rule # rules) command =
     (if search (BlockRule.pattern rule) command then Some rule else first_block rules command)"

definition evaluate :: "string \<Rightarrow> string \<Rightarrow> PolicyResult" where
  "evaluate command i =
     (case first_block ALWAYS_BLOCK command of
        Some rule \<Rightarrow>
          \<lparr>decision = DENY, reason = ''BLOCKED: '' @ description rule, requires_auth = False,
           suggestion = suggestion_for (description rule)\<rparr>
      | None \<Rightarrow>
          if i \<in> RISKY_INTENTS
          then \<lparr>decision = DENY,
                reason = ''Risky intent ('' @ i @ '') requires explicit authorization.'',
                requires_auth = True, suggestion = suggestion_for_intent i command\<rparr>
          else \<lparr>decision = ALLOW, reason = ''Command allowed by policy.'',
                requires_auth = False, suggestion = None\<rparr>)"

text \<open>A block rule matched the command.\<close>

definition blocked :: "string \<Rightarrow> bool" where
  "blocked command = list_ex (\<lambda>rule. search (BlockRule.pattern rule) command) ALWAYS_BLOCK"

section \<open>Exceptions\<close>

text \<open>
  The exceptions that leave a function of the program. \<open>ConfirmError\<close> stands for whatever
  an injected confirmation callback raises. \<open>Unmodelled\<close> is no exception of Python: the
  JSON reader below returns it on text that Python may well accept but whose value has no
  counterpart in this model (a number, a list, a nested object, a code point above 255).
\<close>

datatype exn = ExecutionBlocked string | JSONDecodeError | TypeError | KeyError
  | ConfirmError | Unmodelled

section \<open>JSON\<close>

text \<open>
  A receipt is a Python dictionary from field names to a string or \<open>None\<close>; it is
  modelled as an association list in insertion order.
\<close>

datatype jval = JNull | JStr string

type_synonym dict = "(string \<times> jval) list"

text \<open>\<open>d[k] = v\<close>: an existing key keeps its place, a new key goes to the end.\<close>

primrec dict_set :: "('k \<times> 'v) list \<Rightarrow> 'k \<Rightarrow> 'v \<Rightarrow> ('k \<times> 'v) list" where
  "dict_set [] k v = [(k, v)]"
| "dict_set (p # ps) k v = (if fst p = k then (k, v) # ps else p # dict_set ps k v)"

text \<open>\<open>d.get(k, default)\<close>.\<close>

definition dict_get :: "dict \<Rightarrow> string \<Rightarrow> jval \<Rightarrow> jval" where
  "dict_get d k dflt = (case map_of d k of None \<Rightarrow> dflt | Some v \<Rightarrow> v)"

definition dquote :: char where "dquote = CHR 0x22"
definition bslash :: char where "bslash = CHR 0x5C"

definition hex_digit :: "nat \<Rightarrow> char" where
  "hex_digit n = (if n < 10 then char_of (48 + n) else char_of (87 + n))"

text \<open>
  The string encoder of \<open>json.dumps(..., ensure_ascii=False)\<close>: the quote, the backslash
  and the characters below 0x20 are escaped, every other character is written as it is.
\<close>

definition esc_char :: "char \<Rightarrow> string" where
  "esc_char c =
     (if c = dquote then [bslash, dquote]
      else if c = bslash then [bslash, bslash]
      else if c = CHR 0x0A then [bslash, CHR ''n'']
      else if c = CHR 0x0D then [bslash, CHR ''r'']
      else if c = CHR 0x09 then [bslash, CHR ''t'']
      else if c = CHR 0x08 then [bslash, CHR ''b'']
      else if c = CHR 0x0C then [bslash, CHR ''f'']
      else if of_char c < (32::nat)
      then [bslash, CHR ''u'', CHR ''0'', CHR ''0'',
            hex_digit (of_char c div 16), hex_digit (of_char c mod 16)]
      else [c])"

definition json_string :: "string \<Rightarrow> string" where
  "json_string s = [dquote] @ concat (map esc_char s) @ [dquote]"

definition json_value :: "jval \<Rightarrow> string" where
  "json_value v = (case v of JNull \<Rightarrow> ''null'' | JStr s \<Rightarrow> json_string s)"

fun join :: "string \<Rightarrow> string list \<Rightarrow> string" where
  "join sep [] = []"
| "join sep [x] = x"
| "join sep (x # y # ys) = x @ sep @ join sep (y # ys)"

text \<open>\<open>json.dumps(d, separators=(",", ":"), ensure_ascii=False)\<close>.\<close>

definition json_dumps :: "dict \<Rightarrow> string" where
  "json_dumps d =
     ''{'' @ join '','' (map (\<lambda>(k, v). json_string k @ '':'' @ json_value v) d) @ ''}''"

text \<open>\<open>_canonical_json\<close>: the same with \<open>sort_keys=True\<close>.\<close>

definition canonical_json :: "dict \<Rightarrow> string" where
  "canonical_json record = json_dumps (sort_key fst record)"

subsection \<open>Reading\<close>

definition json_ws :: "char \<Rightarrow> bool" where
  "json_ws c \<longleftrightarrow> c \<in> set [CHR 0x20, CHR 0x09, CHR 0x0A, CHR 0x0D]"

definition skip_ws :: "string \<Rightarrow> string" where
  "skip_ws s = dropWhile json_ws s"

definition hex_val :: "char \<Rightarrow> nat option" where
  "hex_val c =
     (if CHR ''0'' \<le> c \<and> c \<le> CHR ''9'' then Some (of_char c - 48)
      else if CHR ''a'' \<le> c \<and> c \<le> CHR ''f'' then Some (of_char c - 87)
      else if CHR ''A'' \<le> c \<and> c \<le> CHR ''F'' then Some (of_char c - 55)
      else None)"

definition hex4 :: "char \<Rightarrow> char \<Rightarrow> char \<Rightarrow> char \<Rightarrow> nat option" where
  "hex4 a b c d =
     (case (hex_val a, hex_val b, hex_val c, hex_val d) of
        (Some x, Some y, Some z, Some u) \<Rightarrow> Some (((x * 16 + y) * 16 + z) * 16 + u)
      | _ \<Rightarrow> None)"

definition unescape :: "char \<Rightarrow> char option" where
  "unescape e =
     (if e = dquote then Some dquote
      else if e = bslash then Some bslash
      else if e = CHR ''/'' then Some CHR ''/''
      else if e = CHR ''b'' then Some (CHR 0x08)
      else if e = CHR ''f'' then Some (CHR 0x0C)
      else if e = CHR ''n'' then Some (CHR 0x0A)
      else if e = CHR ''r'' then Some (CHR 0x0D)
      else if e = CHR ''t'' then Some (CHR 0x09)
      else None)"

definition consed :: "char \<Rightarrow> exn + (string \<times> string) \<Rightarrow> exn + (string \<times> string)" where
  "consed c r = (case r of Inl e \<Rightarrow> Inl e | Inr (s, rest) \<Rightarrow> Inr (c # s, rest))"

text \<open>
  The body of a JSON string, after its opening quote: the decoded string and the text
  after the closing quote. A raw control character is an error (the decoder is strict).
\<close>

fun scan_string :: "string \<Rightarrow> exn + (string \<times> string)" where
  "scan_string [] = Inl JSONDecodeError"
| "scan_string (c # cs) =
     (if c = dquote then Inr ([], cs)
      else if c = bslash then
        (case cs of
           [] \<Rightarrow> Inl JSONDecodeError
         | e # es \<Rightarrow>
             if e = CHR ''u'' then
               (case es of
                  h1 # h2 # h3 # h4 # rest \<Rightarrow>
                    (case hex4 h1 h2 h3 h4 of
                       None \<Rightarrow> Inl JSONDecodeError
                     | Some n \<Rightarrow> if n < 256 then consed (char_of n) (scan_string rest)
                                else Inl Unmodelled)
                | _ \<Rightarrow> Inl JSONDecodeError)
             else (case unescape e of
                     None \<Rightarrow> Inl JSONDecodeError
                   | Some x \<Rightarrow> consed x (scan_string es)))
      else if of_char c < (32::nat) then Inl JSONDecodeError
      else consed c (scan_string cs))"

text \<open>The characters a JSON value of a kind not modelled here can start with.\<close>

definition other_value_start :: "char \<Rightarrow> bool" where
  "other_value_start c \<longleftrightarrow> c \<in> set ''{[tfNI-0123456789''"

definition parse_value :: "string \<Rightarrow> exn + (jval \<times> string)" where
  "parse_value s =
     (case s of
        [] \<Rightarrow> Inl JSONDecodeError
      | c # cs \<Rightarrow>
          if c = dquote
          then (case scan_string cs of Inl e \<Rightarrow> Inl e | Inr (x, rest) \<Rightarrow> Inr (JStr x, rest))
          else if is_prefix ''null'' s then Inr (JNull, drop 4 s)
          else if other_value_start c then Inl Unmodelled
          else Inl JSONDecodeError)"

lemma consed_rest: "consed c r = Inr (x, rest) \<Longrightarrow> \<exists>y. r = Inr (y, rest)"
  by (auto simp: consed_def split: sum.splits)

lemma scan_string_shorter: "scan_string s = Inr (x, rest) \<Longrightarrow> length rest < length s"
proof (induction "length s" arbitrary: s x rule: less_induct)
  case less
  note IH = less.hyps
  show ?case
  proof (cases s)
    case Nil
    with less.prems show ?thesis by simp
  next
    case (Cons c cs)
    consider (quote) "c = dquote"
      | (plain) "c \<noteq> dquote" "c \<noteq> bslash"
      | (escape) "c \<noteq> dquote" "c = bslash"
      by blast
    then show ?thesis
    proof cases
      case quote
      with less.prems Cons show ?thesis by simp
    next
      case plain
      with less.prems Cons obtain y where "scan_string cs = Inr (y, rest)"
        by (auto split: if_splits dest: consed_rest)
      with IH [of cs y] Cons show ?thesis by simp
    next
      case escape
      with less.prems Cons obtain e es where cs: "cs = e # es"
        by (cases cs) auto
      show ?thesis
      proof (cases "e = CHR ''u''")
        case False
        with escape cs Cons less.prems obtain y where "scan_string es = Inr (y, rest)"
          by (auto split: option.splits dest: consed_rest)
        with IH [of es y] cs Cons show ?thesis by simp
      next
        case True
        with escape cs Cons less.prems obtain h1 h2 h3 h4 r y where
          es: "es = h1 # h2 # h3 # h4 # r" and r: "scan_string r = Inr (y, rest)"
          by (auto split: list.splits option.splits if_splits dest: consed_rest)
        with IH [of r y] cs Cons show ?thesis by simp
      qed
    qed
  qed
qed

lemma skip_ws_length: "length (skip_ws s) \<le> length s"
  by (simp add: skip_ws_def length_dropWhile_le)

lemma parse_value_shorter: "parse_value s = Inr (v, rest) \<Longrightarrow> length rest < length s"
  by (cases s)
     (auto simp: parse_value_def split: if_splits sum.splits dest: scan_string_shorter)

text \<open>One member of a JSON object, from the opening quote of its key: the key, a colon, the value.\<close>

definition parse_member :: "string \<Rightarrow> exn + ((string \<times> jval) \<times> string)" where
  "parse_member s =
     (case s of
        [] \<Rightarrow> Inl JSONDecodeError
      | c # cs \<Rightarrow>
          if c \<noteq> dquote then Inl JSONDecodeError
          else (case scan_string cs of
                  Inl e \<Rightarrow> Inl e
                | Inr (k, r1) \<Rightarrow>
                    (case skip_ws r1 of
                       [] \<Rightarrow> Inl JSONDecodeError
                     | c2 # r2 \<Rightarrow>
                         if c2 \<noteq> CHR '':'' then Inl JSONDecodeError
                         else (case parse_value (skip_ws r2) of
                                 Inl e \<Rightarrow> Inl e
                               | Inr (v, r3) \<Rightarrow> Inr ((k, v), r3)))))"

lemma parse_member_shorter: "parse_member s = Inr (kv, rest) \<Longrightarrow> length rest < length s"
proof -
  assume a: "parse_member s = Inr (kv, rest)"
  then obtain c cs k r1 c2 r2 v where s: "s = c # cs" and k: "scan_string cs = Inr (k, r1)"
    and c: "skip_ws r1 = c2 # r2" and v: "parse_value (skip_ws r2) = Inr (v, rest)"
    by (auto simp: parse_member_def split: list.splits if_splits sum.splits)
  have "length rest < length (skip_ws r2)" using v by (rule parse_value_shorter)
  also have "\<dots> \<le> length r2" by (rule skip_ws_length)
  also have "\<dots> < length (skip_ws r1)" using c by simp
  also have "\<dots> \<le> length r1" by (rule skip_ws_length)
  also have "\<dots> < length cs" using k by (rule scan_string_shorter)
  finally show ?thesis using s by simp
qed

text \<open>
  The members of a JSON object up to the closing brace, separated by commas. A repeated
  key keeps the value read last.
\<close>

function parse_members :: "dict \<Rightarrow> string \<Rightarrow> exn + (dict \<times> string)" where
  "parse_members acc s =
     (case parse_member s of
        Inl e \<Rightarrow> Inl e
      | Inr ((k, v), r3) \<Rightarrow>
          (case skip_ws r3 of
             [] \<Rightarrow> Inl JSONDecodeError
           | c4 # r4 \<Rightarrow>
               if c4 = CHR ''}'' then Inr (dict_set acc k v, r4)
               else if c4 = CHR '','' then parse_members (dict_set acc k v) (skip_ws r4)
               else Inl JSONDecodeError))"
  by pat_completeness auto
termination
proof (relation "measure (\<lambda>(acc, s). length s)", goal_cases)
  case 1
  show ?case by simp
next
  case (2 acc s kvr kv r3 k v c4 r4)
  then have "parse_member s = Inr (kv, r3)" by simp
  then have "length r3 < length s" by (rule parse_member_shorter)
  moreover have "length (skip_ws r4) \<le> length r4" by (rule skip_ws_length)
  moreover have "length r4 < length (skip_ws r3)" using 2 by simp
  moreover have "length (skip_ws r3) \<le> length r3" by (rule skip_ws_length)
  ultimately show ?case by simp
qed

text \<open>
  \<open>json.loads\<close>, on the texts whose value is an object of strings and nulls. Text
  after the value, other than white space, is an error.
\<close>

definition json_loads :: "string \<Rightarrow> exn + dict" where
  "json_loads s =
     (case skip_ws s of
        [] \<Rightarrow> Inl JSONDecodeError
      | c # cs \<Rightarrow>
          if c = CHR ''{'' then
            (case (case skip_ws cs of
                     [] \<Rightarrow> Inl JSONDecodeError
                   | c1 # r1 \<Rightarrow> if c1 = CHR ''}'' then Inr ([], r1)
                               else parse_members [] (c1 # r1)) of
               Inl e \<Rightarrow> Inl e
             | Inr (d, rest) \<Rightarrow> if skip_ws rest = [] then Inr d else Inl JSONDecodeError)
          else if c = dquote \<or> is_prefix ''null'' (c # cs) \<or> other_value_start c
          then Inl Unmodelled
          else Inl JSONDecodeError)"

section \<open>Text files\<close>

text \<open>
  Reading a file in text mode turns \<open>\r\n\<close> and a lone \<open>\r\<close> into \<open>\n\<close>.
\<close>

fun universal_newlines :: "string \<Rightarrow> string" where
  "universal_newlines [] = []"
| "universal_newlines (c # cs) =
     (if c = CHR 0x0D then
        (case cs of
           [] \<Rightarrow> [CHR 0x0A]
         | d # ds \<Rightarrow> if d = CHR 0x0A then CHR 0x0A # universal_newlines ds
                    else CHR 0x0A # universal_newlines (d # ds))
      else c # universal_newlines cs)"

text \<open>
  The line boundaries of \<open>str.splitlines\<close> among the code points below 256: line feed,
  vertical tab, form feed, carriage return, the file, group and record separators, and
  the next-line character U+0085.
\<close>

definition linebreak :: "char \<Rightarrow> bool" where
  "linebreak c \<longleftrightarrow>
     c \<in> set [CHR 0x0A, CHR 0x0B, CHR 0x0C, CHR 0x0D, CHR 0x1C, CHR 0x1D, CHR 0x1E, CHR 0x85]"

text \<open>
  \<open>str.splitlines\<close>: \<open>cur\<close> holds the current line, reversed. A carriage return followed
  by a line feed is one boundary; a boundary at the end of the text opens no further line.
\<close>

fun split_from :: "string \<Rightarrow> string \<Rightarrow> string list" where
  "split_from cur [] = (if cur = [] then [] else [rev cur])"
| "split_from cur (c # cs) =
     (if c = CHR 0x0D then
        (case cs of
           [] \<Rightarrow> [rev cur]
         | d # ds \<Rightarrow> if d = CHR 0x0A then rev cur # split_from [] ds
                    else rev cur # split_from [] (d # ds))
      else if linebreak c then rev cur # split_from [] cs
      else split_from (c # cur) cs)"

definition splitlines :: "string \<Rightarrow> string list" where
  "splitlines s = split_from [] s"

fun show_nat :: "nat \<Rightarrow> string" where
  "show_nat n =
     (if n < 10 then [char_of (48 + n)] else show_nat (n div 10) @ [char_of (48 + n mod 10)])"

definition show_int :: "int \<Rightarrow> string" where
  "show_int i = (if i < 0 then ''-'' @ show_nat (nat (- i)) else show_nat (nat i))"

section \<open>The world outside the program\<close>

text \<open>
  The library functions the program calls and the repository does not define are
  parameters: the SHA-256 digest of a text's UTF-8 encoding in hexadecimal, the ISO format
  of an instant and its inverse (on the texts the former writes), the instant's calendar
  day (\<open>strftime('%Y-%m-%d')\<close>), and what \<open>subprocess.run\<close> does with a command.
\<close>

datatype completed = Completed int string string | TimeoutExpired | OtherError string

record env =
  sha256_hex :: "string \<Rightarrow> string"
  isoformat :: "int \<Rightarrow> string"
  fromisoformat :: "string \<Rightarrow> int"
  strftime_ymd :: "int \<Rightarrow> string"
  subprocess_run :: "string \<Rightarrow> completed"

datatype console_input = Line string | EOFError | KeyboardInterrupt

datatype callback_outcome = Returns bool | Raises

datatype event = ReceiptWritten dict | Executed string | Prompted string string
  | CallbackInvoked string string

record Token =
  token_id :: string
  intent :: string
  issued_at :: string
  expires_at :: string
  ttl :: int
  decision_hash :: string

text \<open>
  The state a run reads and changes: the files of the audit directory (name and
  content), the token file (absent until first used), the clock (the instant the
  \<open>n\<close>-th call of \<open>datetime.now\<close> returns, and how many calls were made), what the
  terminal answers to a prompt, and the trace of what the run did, oldest first.
\<close>

record world =
  audit_dir :: "(string \<times> string) list"
  tokens_file :: "Token list option"
  clock :: "nat \<Rightarrow> int"
  ticks :: nat
  stdin :: console_input
  events :: "event list"

definition now :: "world \<Rightarrow> int \<times> world" where
  "now w = (clock w (ticks w), w\<lparr>ticks := Suc (ticks w)\<rparr>)"

definition log_event :: "event \<Rightarrow> world \<Rightarrow> world" where
  "log_event e w = w\<lparr>events := events w @ [e]\<rparr>"

section \<open>Receipt log\<close>

definition GENESIS_HASH :: string where
  "GENESIS_HASH = replicate 64 CHR ''0''"

definition today_file :: "env \<Rightarrow> world \<Rightarrow> string \<times> world" where
  "today_file env w = (case now w of (t, w') \<Rightarrow> (strftime_ymd env t @ ''.jsonl'', w'))"

text \<open>\<open>filepath.read_text().strip().splitlines()\<close>, for a file that exists.\<close>

definition file_lines :: "string \<Rightarrow> string list" where
  "file_lines content = splitlines (strip (universal_newlines content))"

text \<open>\<open>_last_hash\<close> on a file that exists: the \<open>hash\<close> of its last line.\<close>

definition chain_head :: "string \<Rightarrow> exn + jval" where
  "chain_head content =
     (let lines = file_lines content in
      if lines = [] then Inr (JStr GENESIS_HASH)
      else (case json_loads (last lines) of
              Inl e \<Rightarrow> Inl e
            | Inr l \<Rightarrow> Inr (dict_get l ''hash'' (JStr GENESIS_HASH))))"

definition last_hash :: "world \<Rightarrow> string \<Rightarrow> exn + jval" where
  "last_hash w filepath =
     (case map_of (audit_dir w) filepath of
        None \<Rightarrow> Inr (JStr GENESIS_HASH)
      | Some content \<Rightarrow> chain_head content)"

definition compute_hash :: "env \<Rightarrow> dict \<Rightarrow> string" where
  "compute_hash env record =
     sha256_hex env (canonical_json (filter (\<lambda>(k, v). k \<noteq> ''hash'') record))"

definition opt_str :: "string option \<Rightarrow> jval" where
  "opt_str x = (case x of None \<Rightarrow> JNull | Some s \<Rightarrow> JStr s)"

text \<open>\<open>open("a")\<close> and \<open>write\<close>: the text goes to the end of the file, which is created if absent.\<close>

definition append_text :: "string \<Rightarrow> string \<Rightarrow> world \<Rightarrow> world" where
  "append_text filepath text w =
     w\<lparr>audit_dir := dict_set (audit_dir w) filepath
          ((case map_of (audit_dir w) filepath of None \<Rightarrow> [] | Some content \<Rightarrow> content) @ text)\<rparr>"

text \<open>The record \<open>write_receipt\<close> builds, with its \<open>hash\<close> entry set last.\<close>

definition new_record ::
  "env \<Rightarrow> string \<Rightarrow> string \<Rightarrow> string \<Rightarrow> string \<Rightarrow> string \<Rightarrow> string option \<Rightarrow> string option
     \<Rightarrow> jval \<Rightarrow> dict" where
  "new_record env ts i command dec rsn tok_id exp prev =
     (let record = [(''ts'', JStr ts), (''intent'', JStr i),
            (''command'', JStr command), (''decision'', JStr dec),
            (''reason'', JStr rsn), (''token_id'', opt_str tok_id),
            (''expires_at'', opt_str exp), (''prev_hash'', prev)]
      in dict_set record ''hash'' (JStr (compute_hash env record)))"

definition write_receipt ::
  "env \<Rightarrow> world \<Rightarrow> string \<Rightarrow> string \<Rightarrow> string \<Rightarrow> string \<Rightarrow> string option \<Rightarrow> string option
     \<Rightarrow> (exn + dict) \<times> world" where
  "write_receipt env w i command dec rsn tok_id exp =
     (case today_file env w of (filepath, w1) \<Rightarrow>
        (case last_hash w1 filepath of
           Inl e \<Rightarrow> (Inl e, w1)
         | Inr prev \<Rightarrow>
             (case now w1 of (t, w2) \<Rightarrow>
                (let record = new_record env (isoformat env t) i command dec rsn tok_id exp prev
                 in (Inr record,
                     log_event (ReceiptWritten record)
                       (append_text filepath (json_dumps record @ [CHR 0x0A]) w2))))))"

fun loads_all :: "string list \<Rightarrow> exn + dict list" where
  "loads_all [] = Inr []"
| "loads_all (line # lines) =
     (case json_loads line of
        Inl e \<Rightarrow> Inl e
      | Inr d \<Rightarrow> (case loads_all lines of Inl e \<Rightarrow> Inl e | Inr ds \<Rightarrow> Inr (d # ds)))"

definition read_receipts :: "world \<Rightarrow> string \<Rightarrow> exn + dict list" where
  "read_receipts w filepath =
     (case map_of (audit_dir w) filepath of
        None \<Rightarrow> Inr []
      | Some content \<Rightarrow> loads_all (filter (\<lambda>line. strip line \<noteq> []) (file_lines content)))"

fun ends_with :: "string \<Rightarrow> string \<Rightarrow> bool" where
  "ends_with suffix s = is_prefix (rev suffix) (rev s)"

definition get_all_receipt_files :: "world \<Rightarrow> string list" where
  "get_all_receipt_files w = sort (filter (ends_with ''.jsonl'') (map fst (audit_dir w)))"

section \<open>Chain verifier\<close>

record VerifyResult =
  ok :: bool
  total :: nat
  failed_index :: "nat option"
  failed_reason :: "string option"

text \<open>\<open>x[:16]\<close> in a message: a string is cut, \<open>None\<close> cannot be sliced.\<close>

definition first16 :: "jval \<Rightarrow> exn + string" where
  "first16 v = (case v of JNull \<Rightarrow> Inl TypeError | JStr s \<Rightarrow> Inr (take 16 s))"

definition mismatch :: "string \<Rightarrow> nat \<Rightarrow> jval \<Rightarrow> jval \<Rightarrow> exn + VerifyResult option" where
  "mismatch what idx expected got =
     (case first16 expected of
        Inl e \<Rightarrow> Inl e
      | Inr x \<Rightarrow>
          (case first16 got of
             Inl e \<Rightarrow> Inl e
           | Inr g \<Rightarrow>
               Inr (Some \<lparr>ok = False, total = idx, failed_index = Some idx,
                     failed_reason = Some (what @ '' mismatch at record '' @ show_nat idx
                       @ '': expected '' @ x @ ellipsis @ '', got '' @ g @ ellipsis)\<rparr>)))"

text \<open>
  The inner loop of \<open>verify_chain\<close> over the records of one file: \<open>Some\<close> result when the
  loop returns from the function, \<open>None\<close> when it runs to its end.
\<close>

fun check_records :: "env \<Rightarrow> nat \<Rightarrow> jval \<Rightarrow> dict list \<Rightarrow> exn + VerifyResult option" where
  "check_records env idx day_prev [] = Inr None"
| "check_records env idx day_prev (record # records) =
     (if dict_get record ''prev_hash'' JNull \<noteq> day_prev
      then mismatch ''prev_hash'' idx day_prev (dict_get record ''prev_hash'' (JStr ''MISSING''))
      else if dict_get record ''hash'' JNull \<noteq> JStr (compute_hash env record)
      then mismatch ''hash'' idx (JStr (compute_hash env record))
             (dict_get record ''hash'' (JStr ''MISSING''))
      else (case map_of record ''hash'' of
              None \<Rightarrow> Inl KeyError
            | Some h \<Rightarrow> check_records env (Suc idx) h records))"

text \<open>The outer loop over the files, with the number of records seen so far.\<close>

fun check_files :: "env \<Rightarrow> world \<Rightarrow> nat \<Rightarrow> string list \<Rightarrow> exn + VerifyResult" where
  "check_files env w global_index [] =
     Inr \<lparr>ok = True, total = global_index, failed_index = None, failed_reason = None\<rparr>"
| "check_files env w global_index (filepath # files) =
     (case read_receipts w filepath of
        Inl e \<Rightarrow> Inl e
      | Inr records \<Rightarrow>
          (case check_records env global_index (JStr GENESIS_HASH) records of
             Inl e \<Rightarrow> Inl e
           | Inr (Some result) \<Rightarrow> Inr result
           | Inr None \<Rightarrow> check_files env w (global_index + length records) files))"

definition verify_chain :: "env \<Rightarrow> world \<Rightarrow> exn + VerifyResult" where
  "verify_chain env w = check_files env w 0 (get_all_receipt_files w)"

section \<open>Token store\<close>

text \<open>\<open>_load_tokens\<close>: a missing token file is created empty.\<close>

definition load_tokens :: "world \<Rightarrow> Token list \<times> world" where
  "load_tokens w =
     (case tokens_file w of None \<Rightarrow> ([], w\<lparr>tokens_file := Some []\<rparr>) | Some toks \<Rightarrow> (toks, w))"

fun first_valid :: "env \<Rightarrow> int \<Rightarrow> string \<Rightarrow> Token list \<Rightarrow> Token option" where
  "first_valid env t i [] = None"
| "first_valid env t i (tok # toks) =
     (if Token.intent tok \<noteq> i then first_valid env t i toks
      else if fromisoformat env (expires_at tok) > t then Some tok
      else first_valid env t i toks)"

definition find_valid_token :: "env \<Rightarrow> world \<Rightarrow> string \<Rightarrow> Token option \<times> world" where
  "find_valid_token env w i =
     (case now w of (t, w1) \<Rightarrow>
        (case load_tokens w1 of (toks, w2) \<Rightarrow> (first_valid env t i toks, w2)))"

section \<open>Runner\<close>

record RunResult =
  decision :: string
  intent :: string
  reason :: string
  exit_code :: int
  "output" :: "string option"
  receipt :: "dict option"

definition execute_command :: "env \<Rightarrow> world \<Rightarrow> string \<Rightarrow> (int \<times> string) \<times> world" where
  "execute_command env w command =
     ((case subprocess_run env command of
         Completed returncode out err \<Rightarrow> (returncode, out @ err)
       | TimeoutExpired \<Rightarrow> (124, ''[guardian] Command timed out after 300s.'')
       | OtherError exc \<Rightarrow> (1, ''[guardian] Execution error: '' @ exc)),
      log_event (Executed command) w)"

definition interactive_confirm :: "world \<Rightarrow> string \<Rightarrow> string \<Rightarrow> bool \<times> world" where
  "interactive_confirm w i command =
     ((case stdin w of
         Line answer \<Rightarrow> strip answer = ''ALLOW''
       | EOFError \<Rightarrow> False
       | KeyboardInterrupt \<Rightarrow> False),
      log_event (Prompted i command) w)"

text \<open>
  The three places where \<open>run\<close> writes a DENY receipt and returns the denial.
\<close>

definition deny :: "env \<Rightarrow> world \<Rightarrow> string \<Rightarrow> string \<Rightarrow> string \<Rightarrow> (exn + RunResult) \<times> world" where
  "deny env w i command rsn =
     (case write_receipt env w i command ''DENY'' rsn None None of
        (Inl e, w') \<Rightarrow> (Inl e, w')
      | (Inr rec, w') \<Rightarrow>
          (Inr \<lparr>decision = ''DENY'', intent = i, reason = rsn, exit_code = 1, output = None,
                receipt = Some rec\<rparr>, w'))"

text \<open>
  Gate 2, the body of \<open>if pol.requires_auth\<close>: a valid token grants the run and gives
  its identifier and expiry to the receipt; without one, a run that may not ask is
  refused, and otherwise the callback, or the terminal if there is none, decides.
\<close>

datatype auth = Refused string | Granted "string option" "string option"

definition authorize ::
  "env \<Rightarrow> world \<Rightarrow> string \<Rightarrow> string \<Rightarrow> bool \<Rightarrow> (string \<Rightarrow> string \<Rightarrow> callback_outcome) option
     \<Rightarrow> (exn + auth) \<times> world" where
  "authorize env w i command skip_confirm confirm_callback =
     (case find_valid_token env w i of
        (Some tok, w1) \<Rightarrow> (Inr (Granted (Some (token_id tok)) (Some (expires_at tok))), w1)
      | (None, w1) \<Rightarrow>
          if skip_confirm
          then (Inr (Refused
                  ''Risky intent denied (no valid token, no interactive confirmation).''), w1)
          else (case (case confirm_callback of
                        Some callback \<Rightarrow>
                          (case callback i command of
                             Raises \<Rightarrow> Inl ConfirmError
                           | Returns authorized \<Rightarrow> Inr authorized,
                           log_event (CallbackInvoked i command) w1)
                      | None \<Rightarrow>
                          (case interactive_confirm w1 i command of
                             (authorized, w2) \<Rightarrow> (Inr authorized, w2))) of
                  (Inl e, w2) \<Rightarrow> (Inl e, w2)
                | (Inr authorized, w2) \<Rightarrow>
                    if \<not> authorized
                    then (Inr (Refused ''User declined interactive authorization.''), w2)
                    else (Inr (Granted None None), w2)))"

text \<open>Gates 3 and 4: the second classification, the ALLOW receipt, the execution.\<close>

definition execute_checked ::
  "env \<Rightarrow> world \<Rightarrow> PolicyResult \<Rightarrow> string \<Rightarrow> string \<Rightarrow> string option \<Rightarrow> string option
     \<Rightarrow> (exn + RunResult) \<times> world" where
  "execute_checked env w pol i command tok_id exp =
     (let re_intent = classify command;
          re_pol = evaluate command re_intent
      in if PolicyResult.decision re_pol = DENY \<and> \<not> requires_auth re_pol
         then (case write_receipt env w re_intent command ''DENY''
                      (''Re-classification blocked: '' @ PolicyResult.reason re_pol) None None of
                 (Inl e, w') \<Rightarrow> (Inl e, w')
               | (Inr rec, w') \<Rightarrow>
                   (Inl (ExecutionBlocked
                          (''Re-classification blocked: '' @ PolicyResult.reason re_pol)), w'))
         else (case write_receipt env w i command ''ALLOW''
                      (if PolicyResult.decision pol = ALLOW then PolicyResult.reason pol
                       else ''Authorized (token or interactive).'') tok_id exp of
                 (Inl e, w') \<Rightarrow> (Inl e, w')
               | (Inr rec, w1) \<Rightarrow>
                   (case execute_command env w1 command of
                      ((code, out), w2) \<Rightarrow>
                        (Inr \<lparr>decision = ''ALLOW'', intent = i,
                              reason = (if code = 0 then ''Executed successfully.''
                                        else ''Command exited with code '' @ show_int code @ ''.''),
                              exit_code = code, output = Some out, receipt = Some rec\<rparr>,
                         w2))))"

definition run ::
  "env \<Rightarrow> world \<Rightarrow> string \<Rightarrow> bool \<Rightarrow> (string \<Rightarrow> string \<Rightarrow> callback_outcome) option
     \<Rightarrow> (exn + RunResult) \<times> world" where
  "run env w command skip_confirm confirm_callback =
     (let i = classify command;
          pol = evaluate command i
      in if PolicyResult.decision pol = DENY \<and> \<not> requires_auth pol
         then deny env w i command (PolicyResult.reason pol)
         else if requires_auth pol
         then (case authorize env w i command skip_confirm confirm_callback of
                 (Inl e, w1) \<Rightarrow> (Inl e, w1)
               | (Inr (Refused rsn), w1) \<Rightarrow> deny env w1 i command rsn
               | (Inr (Granted tok_id exp), w1) \<Rightarrow> execute_checked env w1 pol i command tok_id exp)
         else execute_checked env w pol i command None None)"

section \<open>Observations on a world\<close>

text \<open>
  The file \<open>write_receipt\<close> would open now, named after the day of the clock's next
  reading, is absent, or is empty, or ends in a line that \<open>_last_hash\<close> can read.
\<close>

definition head_readable :: "env \<Rightarrow> world \<Rightarrow> bool" where
  "head_readable env w =
     (case last_hash w (strftime_ymd env (clock w (ticks w)) @ ''.jsonl'') of
        Inl e \<Rightarrow> False
      | Inr h \<Rightarrow> True)"

text \<open>The tokens in the store, and what makes one valid for an intent at an instant.\<close>

definition stored_tokens :: "world \<Rightarrow> Token list" where
  "stored_tokens w = (case tokens_file w of None \<Rightarrow> [] | Some toks \<Rightarrow> toks)"

definition valid_at :: "env \<Rightarrow> int \<Rightarrow> string \<Rightarrow> Token \<Rightarrow> bool" where
  "valid_at env t i tok \<longleftrightarrow> Token.intent tok = i \<and> fromisoformat env (expires_at tok) > t"

text \<open>The commands a trace executed, and the receipts it wrote.\<close>

definition executed :: "world \<Rightarrow> string list" where
  "executed w = [c. Executed c \<leftarrow> events w]"

definition written :: "world \<Rightarrow> dict list" where
  "written w = [rec. ReceiptWritten rec \<leftarrow> events w]"

section \<open>An example world\<close>

text \<open>
  A world to run the model in: stand-ins for the library functions (the digest is a
  text that depends on its argument's length), a token store with one token for
  \<open>process_kill\<close> that expires at instant 1120, a clock that starts at 1001, an empty
  audit directory and a terminal at end of input.
\<close>

definition example_env :: env where
  "example_env =
     \<lparr>sha256_hex = (\<lambda>s. ''digest-of-'' @ show_nat (length s) @ ''-characters''),
      isoformat = (\<lambda>t. ''instant-'' @ show_int t),
      fromisoformat = (\<lambda>s. if s = ''instant-1120'' then 1120 else 0),
      strftime_ymd = (\<lambda>t. ''2026-01-01''),
      subprocess_run = (\<lambda>command. Completed 0 ''mocked output'' [])\<rparr>"

definition example_token :: Token where
  "example_token =
     \<lparr>token_id = ''0123456789abcdef'', intent = ''process_kill'', issued_at = ''instant-1000'',
      expires_at = ''instant-1120'', ttl = 120, decision_hash = ''digest''\<rparr>"

definition example_world :: world where
  "example_world =
     \<lparr>audit_dir = [], tokens_file = Some [example_token], clock = (\<lambda>n. 1001 + int n), ticks = 0,
      stdin = EOFError, events = []\<rparr>"



section \<open>Properties of the classifier and the policy engine\<close>

lemma first_block_None:
  "first_block rules command = None
     \<longleftrightarrow> \<not> list_ex (\<lambda>rule. search (BlockRule.pattern rule) command) rules"
  by (induction rules) auto

lemma evaluate_blocked:
  "blocked command \<Longrightarrow>
     PolicyResult.decision (evaluate command i) = DENY \<and> \<not> requires_auth (evaluate command i)"
  using first_block_None [of ALWAYS_BLOCK command]
  by (auto simp: evaluate_def blocked_def split: option.splits)

lemma evaluate_not_blocked:
  "\<not> blocked command \<Longrightarrow> evaluate command i =
     (if i \<in> RISKY_INTENTS
      then \<lparr>PolicyResult.decision = DENY,
            reason = ''Risky intent ('' @ i @ '') requires explicit authorization.'',
            requires_auth = True, suggestion = suggestion_for_intent i command\<rparr>
      else \<lparr>PolicyResult.decision = ALLOW, reason = ''Command allowed by policy.'',
            requires_auth = False, suggestion = None\<rparr>)"
  using first_block_None [of ALWAYS_BLOCK command]
  by (auto simp: evaluate_def blocked_def split: option.splits)

text \<open>
  Claim C4. \<open>classify("rm -rf /")\<close> is the file-delete intent, a risky one, and
  \<open>evaluate("rm -rf /", file_delete)\<close> is DENY with \<open>requires_auth\<close> false. The block
  gate comes first: whenever a block rule matches a command, \<open>evaluate\<close> answers DENY
  without \<open>requires_auth\<close> also for a risky intent.
\<close>

theorem block_gate_first:
  "classify ''rm -rf /'' = FILE_DELETE \<and> FILE_DELETE \<in> RISKY_INTENTS
   \<and> PolicyResult.decision (evaluate ''rm -rf /'' FILE_DELETE) = DENY
   \<and> \<not> requires_auth (evaluate ''rm -rf /'' FILE_DELETE)
   \<and> (\<forall>command i. blocked command \<and> i \<in> RISKY_INTENTS \<longrightarrow>
         PolicyResult.decision (evaluate command i) = DENY
         \<and> \<not> requires_auth (evaluate command i))"
proof -
  have 1: "classify ''rm -rf /'' = FILE_DELETE" by code_simp
  have 2: "FILE_DELETE \<in> RISKY_INTENTS" by (simp add: RISKY_INTENTS_def)
  have 3: "blocked ''rm -rf /''" by code_simp
  from 1 2 3 evaluate_blocked show ?thesis by blast
qed

theorem block_gate_first_witness:
  "blocked ''rm -rf /*'' \<and> PRIVILEGE_ESCALATION \<in> RISKY_INTENTS
   \<and> PolicyResult.decision (evaluate ''rm -rf /*'' PRIVILEGE_ESCALATION) = DENY
   \<and> \<not> requires_auth (evaluate ''rm -rf /*'' PRIVILEGE_ESCALATION)"
proof -
  have 1: "blocked ''rm -rf /*''" by code_simp
  have 2: "PRIVILEGE_ESCALATION \<in> RISKY_INTENTS" by (simp add: RISKY_INTENTS_def)
  from 1 2 block_gate_first show ?thesis by blast
qed

text \<open>
  Claim C8. For every command and intent, the result of \<open>evaluate\<close> has \<open>requires_auth\<close>
  only together with the decision DENY, and when a block rule matched the command,
  \<open>requires_auth\<close> is false.
\<close>

theorem policy_result_invariant:
  "(requires_auth (evaluate command i) \<longrightarrow> PolicyResult.decision (evaluate command i) = DENY)
   \<and> (blocked command \<longrightarrow> \<not> requires_auth (evaluate command i))"
proof (cases "blocked command")
  case True
  then show ?thesis using evaluate_blocked by blast
next
  case False
  then show ?thesis by (simp add: evaluate_not_blocked)
qed

theorem policy_result_invariant_witness:
  "requires_auth (evaluate ''kill -9 1234'' PROCESS_KILL)
   \<and> PolicyResult.decision (evaluate ''kill -9 1234'' PROCESS_KILL) = DENY
   \<and> blocked ''dd if=/dev/zero of=/dev/sda''
   \<and> \<not> requires_auth (evaluate ''dd if=/dev/zero of=/dev/sda'' DISK_FORMAT)"
proof -
  have 1: "requires_auth (evaluate ''kill -9 1234'' PROCESS_KILL)" by code_simp
  have 2: "blocked ''dd if=/dev/zero of=/dev/sda''" by code_simp
  from policy_result_invariant [of "''kill -9 1234''" PROCESS_KILL]
    policy_result_invariant [of "''dd if=/dev/zero of=/dev/sda''" DISK_FORMAT] 1 2
  show ?thesis by blast
qed

section \<open>Properties of the receipt log\<close>

lemma consed_error: "consed c r = Inl e \<Longrightarrow> r = Inl e"
  by (auto simp: consed_def split: sum.splits)

lemma scan_string_error: "scan_string s = Inl e \<Longrightarrow> e = JSONDecodeError \<or> e = Unmodelled"
proof (induction "length s" arbitrary: s rule: less_induct)
  case less
  note IH = less.hyps
  show ?case
  proof (cases s)
    case Nil
    with less.prems show ?thesis by simp
  next
    case (Cons c cs)
    consider (quote) "c = dquote"
      | (plain) "c \<noteq> dquote" "c \<noteq> bslash"
      | (escape) "c \<noteq> dquote" "c = bslash"
      by blast
    then show ?thesis
    proof cases
      case quote
      with less.prems Cons show ?thesis by simp
    next
      case plain
      with less.prems Cons have "e = JSONDecodeError \<or> scan_string cs = Inl e"
        by (auto split: if_splits dest: consed_error)
      with IH [of cs] Cons show ?thesis by auto
    next
      case escape
      show ?thesis
      proof (cases cs)
        case Nil
        with escape less.prems Cons show ?thesis by simp
      next
        case cs: (Cons d ds)
        show ?thesis
        proof (cases "d = CHR ''u''")
          case False
          with escape cs Cons less.prems have "e = JSONDecodeError \<or> scan_string ds = Inl e"
            by (auto split: option.splits dest: consed_error)
          with IH [of ds] cs Cons show ?thesis by auto
        next
          case True
          with escape cs Cons less.prems
          have "e = JSONDecodeError \<or> e = Unmodelled
                 \<or> (\<exists>h1 h2 h3 h4 r. ds = h1 # h2 # h3 # h4 # r \<and> scan_string r = Inl e)"
            by (simp split: list.splits option.splits if_splits) (auto dest: consed_error)
          then consider "e = JSONDecodeError \<or> e = Unmodelled"
            | h1 h2 h3 h4 r where "ds = h1 # h2 # h3 # h4 # r" "scan_string r = Inl e"
            by blast
          then show ?thesis
          proof cases
            case 1
            then show ?thesis .
          next
            case 2
            with IH [of r] cs Cons show ?thesis by simp
          qed
        qed
      qed
    qed
  qed
qed

lemma parse_value_error: "parse_value s = Inl e \<Longrightarrow> e = JSONDecodeError \<or> e = Unmodelled"
  by (cases s) (auto simp: parse_value_def split: if_splits sum.splits dest: scan_string_error)

lemma parse_member_error: "parse_member s = Inl e \<Longrightarrow> e = JSONDecodeError \<or> e = Unmodelled"
  by (auto simp: parse_member_def split: list.splits if_splits sum.splits prod.splits
      dest: scan_string_error parse_value_error)

lemma parse_members_error:
  "parse_members acc s = Inl e \<Longrightarrow> e = JSONDecodeError \<or> e = Unmodelled"
proof (induction acc s rule: parse_members.induct)
  case (1 acc s)
  show ?case
  proof (cases "parse_member s")
    case (Inl e')
    with "1.prems" have "e = e'" by (subst (asm) parse_members.simps) simp
    with Inl show ?thesis using parse_member_error by blast
  next
    case (Inr x)
    obtain k v r3 where x: "x = ((k, v), r3)" by (metis surj_pair)
    show ?thesis
    proof (cases "skip_ws r3")
      case Nil
      with "1.prems" Inr x show ?thesis by (subst (asm) parse_members.simps) simp
    next
      case (Cons c4 r4)
      show ?thesis
      proof (cases "c4 \<noteq> CHR ''}'' \<and> c4 = CHR '',''")
        case True
        with "1.prems" Inr x Cons have "parse_members (dict_set acc k v) (skip_ws r4) = Inl e"
          by (subst (asm) parse_members.simps) simp
        with "1.IH" [OF Inr _ _ Cons] x True show ?thesis by simp
      next
        case False
        with "1.prems" Inr x Cons show ?thesis
          by (subst (asm) parse_members.simps) (simp split: if_splits)
      qed
    qed
  qed
qed

lemma json_loads_error:
  assumes "json_loads s = Inl e"
  shows "e = JSONDecodeError \<or> e = Unmodelled"
proof (cases "skip_ws s")
  case Nil
  with assms show ?thesis by (simp add: json_loads_def)
next
  case (Cons c cs)
  show ?thesis
  proof (cases "c = CHR ''{''")
    case False
    with assms Cons show ?thesis by (simp add: json_loads_def split: if_splits)
  next
    case True
    define inner where "inner = (case skip_ws cs of
                     [] \<Rightarrow> Inl JSONDecodeError
                   | c1 # r1 \<Rightarrow> if c1 = CHR ''}'' then Inr ([], r1)
                               else parse_members [] (c1 # r1))"
    have inner_err: "e' = JSONDecodeError \<or> e' = Unmodelled" if "inner = Inl e'" for e'
      using that parse_members_error unfolding inner_def
      by (cases "skip_ws cs") (auto split: if_splits)
    from assms Cons True have "(case inner of
               Inl e \<Rightarrow> Inl e
             | Inr (d, rest) \<Rightarrow> if skip_ws rest = [] then Inr d else Inl JSONDecodeError) = Inl e"
      by (simp add: json_loads_def inner_def)
    then show ?thesis
      using inner_err by (cases inner) (auto split: if_splits)
  qed
qed

lemma chain_head_error: "chain_head content = Inl e \<Longrightarrow> e = JSONDecodeError \<or> e = Unmodelled"
  by (auto simp: chain_head_def Let_def split: if_splits sum.splits dest: json_loads_error)

lemma last_hash_error: "last_hash w f = Inl e \<Longrightarrow> e = JSONDecodeError \<or> e = Unmodelled"
  by (auto simp: last_hash_def split: option.splits dest: chain_head_error)

lemma head_readable_frame:
  assumes "head_readable env w"
    and "audit_dir w' = audit_dir w" "clock w' = clock w" "ticks w' = ticks w"
  shows "head_readable env w'"
  using assms by (simp add: head_readable_def last_hash_def)

lemma new_record_fields:
  "dict_get (new_record env ts i command dec rsn tok_id exp prev) ''decision'' JNull = JStr dec"
  "dict_get (new_record env ts i command dec rsn tok_id exp prev) ''token_id'' JNull = opt_str tok_id"
  "dict_get (new_record env ts i command dec rsn tok_id exp prev) ''expires_at'' JNull = opt_str exp"
  "dict_get (new_record env ts i command dec rsn tok_id exp prev) ''intent'' JNull = JStr i"
  "dict_get (new_record env ts i command dec rsn tok_id exp prev) ''command'' JNull = JStr command"
  by (simp_all add: new_record_def dict_get_def Let_def)

lemma write_receipt_cases:
  "write_receipt env w i command dec rsn tok_id exp =
     (case last_hash (w\<lparr>ticks := Suc (ticks w)\<rparr>) (strftime_ymd env (clock w (ticks w)) @ ''.jsonl'') of
        Inl e \<Rightarrow> (Inl e, w\<lparr>ticks := Suc (ticks w)\<rparr>)
      | Inr prev \<Rightarrow>
          (Inr (new_record env (isoformat env (clock w (Suc (ticks w)))) i command dec rsn tok_id exp prev),
           log_event (ReceiptWritten (new_record env (isoformat env (clock w (Suc (ticks w)))) i command dec rsn tok_id exp prev))
             (append_text (strftime_ymd env (clock w (ticks w)) @ ''.jsonl'')
                (json_dumps (new_record env (isoformat env (clock w (Suc (ticks w)))) i command dec rsn tok_id exp prev) @ [CHR 0x0A])
                (w\<lparr>ticks := Suc (Suc (ticks w))\<rparr>))))"
  by (simp add: write_receipt_def today_file_def now_def Let_def split: sum.splits)

lemma write_receipt_readable:
  assumes "head_readable env w"
  shows "\<exists>rec w'. write_receipt env w i command dec rsn tok_id exp = (Inr rec, w')
     \<and> events w' = events w @ [ReceiptWritten rec]
     \<and> dict_get rec ''decision'' JNull = JStr dec
     \<and> dict_get rec ''token_id'' JNull = opt_str tok_id
     \<and> dict_get rec ''expires_at'' JNull = opt_str exp"
proof -
  let ?f = "strftime_ymd env (clock w (ticks w)) @ ''.jsonl''"
  from assms obtain h where "last_hash w ?f = Inr h"
    by (cases "last_hash w ?f") (simp_all add: head_readable_def)
  then have "last_hash (w\<lparr>ticks := Suc (ticks w)\<rparr>) ?f = Inr h"
    by (simp add: last_hash_def)
  then show ?thesis
    by (simp add: write_receipt_cases new_record_fields log_event_def append_text_def)
qed

lemma write_receipt_error:
  assumes "write_receipt env w i command dec rsn tok_id exp = (Inl e, w')"
  shows "(e = JSONDecodeError \<or> e = Unmodelled) \<and> events w' = events w"
proof (cases "last_hash (w\<lparr>ticks := Suc (ticks w)\<rparr>)
      (strftime_ymd env (clock w (ticks w)) @ ''.jsonl'')")
  case (Inl e')
  with assms have "e = e'" "w' = w\<lparr>ticks := Suc (ticks w)\<rparr>"
    by (simp_all add: write_receipt_cases)
  with Inl last_hash_error show ?thesis by auto
next
  case (Inr h)
  with assms show ?thesis by (simp add: write_receipt_cases)
qed

lemma write_receipt_written:
  assumes "write_receipt env w i command dec rsn tok_id exp = (Inr rec, w')"
  shows "events w' = events w @ [ReceiptWritten rec] \<and> dict_get rec ''decision'' JNull = JStr dec"
proof (cases "last_hash (w\<lparr>ticks := Suc (ticks w)\<rparr>)
      (strftime_ymd env (clock w (ticks w)) @ ''.jsonl'')")
  case (Inl e')
  with assms show ?thesis by (simp add: write_receipt_cases)
next
  case (Inr h)
  with assms show ?thesis
    by (auto simp: write_receipt_cases new_record_fields log_event_def append_text_def)
qed

lemma write_receipt_executed:
  "executed (snd (write_receipt env w i command dec rsn tok_id exp)) = executed w"
proof (cases "write_receipt env w i command dec rsn tok_id exp")
  case (Pair r w')
  then show ?thesis
    using write_receipt_error [of env w i command dec rsn tok_id exp _ w']
      write_receipt_written [of env w i command dec rsn tok_id exp _ w']
    by (cases r) (auto simp: executed_def)
qed

section \<open>Properties of the runner\<close>

lemma deny_readable:
  assumes "head_readable env w"
  shows "\<exists>rec w'. deny env w i command rsn =
       (Inr \<lparr>RunResult.decision = ''DENY'', intent = i, reason = rsn, exit_code = 1,
             output = None, receipt = Some rec\<rparr>, w')
     \<and> dict_get rec ''decision'' JNull = JStr ''DENY''
     \<and> events w' = events w @ [ReceiptWritten rec]"
  using write_receipt_readable [OF assms, where i = i and command = command
      and dec = "''DENY''" and rsn = rsn and tok_id = None and exp = None]
  by (auto simp: deny_def)

lemma deny_executed: "executed (snd (deny env w i command rsn)) = executed w"
  using write_receipt_executed [of env w i command "''DENY''" rsn None None]
  by (auto simp: deny_def split: prod.splits sum.splits)

lemma deny_error:
  "deny env w i command rsn = (Inl e, w') \<Longrightarrow> e = JSONDecodeError \<or> e = Unmodelled"
  using write_receipt_error [of env w i command "''DENY''" rsn None None e w']
  by (auto simp: deny_def split: prod.splits sum.splits)

lemma first_valid_find: "first_valid env t i toks = find (valid_at env t i) toks"
  by (induction toks) (auto simp: valid_at_def)

lemma find_valid_token_eq:
  "find_valid_token env w i =
     (find (valid_at env (clock w (ticks w)) i) (stored_tokens w),
      w\<lparr>ticks := Suc (ticks w), tokens_file := Some (stored_tokens w)\<rparr>)"
  by (cases "tokens_file w")
     (simp_all add: find_valid_token_def now_def load_tokens_def stored_tokens_def first_valid_find)

lemma run_blocked:
  "blocked command \<Longrightarrow>
     run env w command skip_confirm confirm_callback =
       deny env w (classify command) command
         (PolicyResult.reason (evaluate command (classify command)))"
  by (simp add: run_def Let_def evaluate_blocked)

lemma execute_checked_open:
  assumes "\<not> (PolicyResult.decision (evaluate command (classify command)) = DENY
              \<and> \<not> requires_auth (evaluate command (classify command)))"
  shows "execute_checked env w pol i command tok_id exp =
     (case write_receipt env w i command ''ALLOW''
            (if PolicyResult.decision pol = ALLOW then PolicyResult.reason pol
             else ''Authorized (token or interactive).'') tok_id exp of
        (Inl e, w') \<Rightarrow> (Inl e, w')
      | (Inr rec, w1) \<Rightarrow>
          (case execute_command env w1 command of
             ((code, out), w2) \<Rightarrow>
               (Inr \<lparr>RunResult.decision = ''ALLOW'', intent = i,
                     reason = (if code = 0 then ''Executed successfully.''
                               else ''Command exited with code '' @ show_int code @ ''.''),
                     exit_code = code, output = Some out, receipt = Some rec\<rparr>,
                w2)))"
  using assms unfolding execute_checked_def Let_def by (simp only: if_False)

lemma execute_checked_error:
  assumes "\<not> (PolicyResult.decision (evaluate command (classify command)) = DENY
              \<and> \<not> requires_auth (evaluate command (classify command)))"
    and "execute_checked env w pol i command tok_id exp = (Inl e, w')"
  shows "e = JSONDecodeError \<or> e = Unmodelled"
proof -
  let ?wr = "write_receipt env w i command ''ALLOW''
            (if PolicyResult.decision pol = ALLOW then PolicyResult.reason pol
             else ''Authorized (token or interactive).'') tok_id exp"
  obtain r w1 where wr: "?wr = (r, w1)" by (cases ?wr)
  show ?thesis
  proof (cases r)
    case (Inl e')
    with assms wr have "e = e'" by (simp add: execute_checked_open)
    with Inl wr write_receipt_error show ?thesis by blast
  next
    case (Inr rec)
    with assms wr show ?thesis
      by (simp add: execute_checked_open split: prod.splits)
  qed
qed

lemma authorize_error:
  "authorize env w i command skip_confirm confirm_callback = (Inl e, w') \<Longrightarrow> e = ConfirmError"
  by (auto simp: authorize_def find_valid_token_eq interactive_confirm_def
      split: option.splits if_splits callback_outcome.splits prod.splits)

text \<open>
  What holds of a blocked command in every world: \<open>run\<close> never executes it, whatever
  the token store holds and whatever way of confirming is offered, and the policy result
  has \<open>requires_auth\<close> false. When the audit file of the day can be read, \<open>run\<close> returns
  the decision DENY with exit code 1 and has written exactly one receipt, a DENY one.
\<close>

theorem blocked_never_executes:
  assumes "blocked command"
  shows "\<not> requires_auth (evaluate command (classify command))
    \<and> (case run env w command skip_confirm confirm_callback of
         (result, w') \<Rightarrow>
           executed w' = executed w
           \<and> (head_readable env w \<longrightarrow>
                (\<exists>rec. result = Inr \<lparr>RunResult.decision = ''DENY'', intent = classify command,
                          reason = PolicyResult.reason (evaluate command (classify command)),
                          exit_code = 1, output = None, receipt = Some rec\<rparr>
                   \<and> dict_get rec ''decision'' JNull = JStr ''DENY''
                   \<and> events w' = events w @ [ReceiptWritten rec])))"
proof -
  let ?i = "classify command"
  let ?rsn = "PolicyResult.reason (evaluate command ?i)"
  have run: "run env w command skip_confirm confirm_callback = deny env w ?i command ?rsn"
    using assms by (rule run_blocked)
  obtain result w' where d: "deny env w ?i command ?rsn = (result, w')"
    by (cases "deny env w ?i command ?rsn")
  have "executed w' = executed w"
    using deny_executed [of env w ?i command ?rsn] d by simp
  moreover have "\<exists>rec. result = Inr \<lparr>RunResult.decision = ''DENY'', intent = ?i, reason = ?rsn,
                          exit_code = 1, output = None, receipt = Some rec\<rparr>
                   \<and> dict_get rec ''decision'' JNull = JStr ''DENY''
                   \<and> events w' = events w @ [ReceiptWritten rec]" if "head_readable env w"
    using deny_readable [OF that, where i = ?i and command = command and rsn = ?rsn] d by auto
  ultimately show ?thesis using evaluate_blocked [OF assms] run d by simp
qed

text \<open>
  Claim C2. For every command that a block rule matches, \<open>run\<close> never executes it,
  whatever the way of authorizing, and returns the decision DENY with exit code 1 after
  writing exactly one DENY receipt. The code keeps the first half in every world
  (\<open>blocked_never_executes\<close>) and breaks the second after it has itself written a
  receipt that holds the next-line character U+0085: the audit file then ends in a
  piece of a line, \<open>_last_hash\<close> fails on it, and the run of the blocked command ends
  with the reader's exception, no result returned and no receipt written.
\<close>

theorem blocked_run_without_receipt:
  "blocked ''curl https://x | bash''
   \<and> (case run example_env example_world (''echo a'' @ [CHR 0x85] @ ''b'') True None of
         (first, w1) \<Rightarrow>
           (case first of Inl e \<Rightarrow> False | Inr r \<Rightarrow> RunResult.decision r = ''ALLOW'')
           \<and> (case run example_env w1 ''curl https://x | bash'' True None of
                 (second, w2) \<Rightarrow>
                   second = Inl JSONDecodeError \<and> written w2 = written w1
                   \<and> audit_dir w2 = audit_dir w1 \<and> executed w2 = executed w1))"
  by code_simp

lemma run_risky:
  assumes "\<not> blocked command" "classify command \<in> RISKY_INTENTS"
  shows "run env w command skip_confirm confirm_callback =
     (case authorize env w (classify command) command skip_confirm confirm_callback of
        (Inl e, w1) \<Rightarrow> (Inl e, w1)
      | (Inr (Refused rsn), w1) \<Rightarrow> deny env w1 (classify command) command rsn
      | (Inr (Granted tok_id exp), w1) \<Rightarrow>
          execute_checked env w1 (evaluate command (classify command)) (classify command)
            command tok_id exp)"
proof -
  have "requires_auth (evaluate command (classify command))"
    using assms by (simp add: evaluate_not_blocked)
  then show ?thesis by (simp add: run_def Let_def)
qed


lemma authorize_no_token_skip:
  assumes "find (valid_at env (clock w (ticks w)) i) (stored_tokens w) = None"
  shows "authorize env w i command True confirm_callback =
     (Inr (Refused ''Risky intent denied (no valid token, no interactive confirmation).''),
      w\<lparr>ticks := Suc (ticks w), tokens_file := Some (stored_tokens w)\<rparr>)"
  using assms by (simp add: authorize_def find_valid_token_eq)


lemma run_no_token_skip:
  assumes "classify command \<in> RISKY_INTENTS"
    and "\<forall>tok \<in> set (stored_tokens w).
           \<not> valid_at env (clock w (ticks w)) (classify command) tok"
  shows "\<exists>rsn w1. run env w command True confirm_callback
             = deny env w1 (classify command) command rsn
           \<and> audit_dir w1 = audit_dir w \<and> events w1 = events w \<and> clock w1 = clock w
           \<and> ticks w1 = (if blocked command then ticks w else Suc (ticks w))"
proof (cases "blocked command")
  case True
  have "run env w command True confirm_callback
      = deny env w (classify command) command
          (PolicyResult.reason (evaluate command (classify command)))"
    using True by (rule run_blocked)
  with True show ?thesis
    by (intro exI [of _ "PolicyResult.reason (evaluate command (classify command))"]
        exI [of _ w]) simp
next
  case False
  let ?w1 = "w\<lparr>ticks := Suc (ticks w), tokens_file := Some (stored_tokens w)\<rparr>"
  have none: "find (valid_at env (clock w (ticks w)) (classify command)) (stored_tokens w) = None"
    using assms(2) by (simp add: find_None_iff)
  have "run env w command True confirm_callback =
      deny env ?w1 (classify command) command
        ''Risky intent denied (no valid token, no interactive confirmation).''"
    unfolding run_risky [OF False assms(1)] authorize_no_token_skip [OF none] by simp
  then show ?thesis
    using False
    by (intro exI [of _ "''Risky intent denied (no valid token, no interactive confirmation).''"]
        exI [of _ ?w1]) simp
qed

text \<open>
  What holds of a risky command in every world when the store has no token for its
  intent that expires after the instant \<open>find_valid_token\<close> reads, and the run may not
  ask: \<open>run\<close> never executes the command. When the audit file of the day can be read at
  the moment of writing (after the token lookup has read the clock once, unless a block
  rule matched), \<open>run\<close> returns the decision DENY with exit code 1 and has written one
  receipt, a DENY one, and nothing else happened.
\<close>

theorem risky_without_token_denied:
  assumes "classify command \<in> RISKY_INTENTS"
    and "\<forall>tok \<in> set (stored_tokens w).
           \<not> valid_at env (clock w (ticks w)) (classify command) tok"
  shows "case run env w command True confirm_callback of
           (result, w') \<Rightarrow>
             executed w' = executed w
             \<and> (head_readable env (if blocked command then w else w\<lparr>ticks := Suc (ticks w)\<rparr>)
                  \<longrightarrow>
                  (\<exists>rec rsn. result = Inr \<lparr>RunResult.decision = ''DENY'',
                                 intent = classify command, reason = rsn, exit_code = 1,
                                 output = None, receipt = Some rec\<rparr>
                     \<and> dict_get rec ''decision'' JNull = JStr ''DENY''
                     \<and> events w' = events w @ [ReceiptWritten rec]))"
proof -
  let ?i = "classify command"
  let ?w0 = "if blocked command then w else w\<lparr>ticks := Suc (ticks w)\<rparr>"
  from run_no_token_skip [OF assms, where confirm_callback = confirm_callback]
  obtain rsn w1 where run: "run env w command True confirm_callback = deny env w1 ?i command rsn"
    and frame: "audit_dir w1 = audit_dir w" "events w1 = events w" "clock w1 = clock w"
      "ticks w1 = (if blocked command then ticks w else Suc (ticks w))"
    by blast
  obtain result w' where d: "deny env w1 ?i command rsn = (result, w')"
    by (cases "deny env w1 ?i command rsn")
  have "executed (snd (deny env w1 ?i command rsn)) = executed w1"
    by (rule deny_executed)
  then have "executed w' = executed w1"
    unfolding d by (simp only: snd_conv)
  then have ex: "executed w' = executed w"
    using frame(2) by (simp only: executed_def)
  have wr: "\<exists>rec rsn. result = Inr \<lparr>RunResult.decision = ''DENY'', intent = ?i, reason = rsn,
                          exit_code = 1, output = None, receipt = Some rec\<rparr>
                   \<and> dict_get rec ''decision'' JNull = JStr ''DENY''
                   \<and> events w' = events w @ [ReceiptWritten rec]" if "head_readable env ?w0"
  proof -
    have "head_readable env w1"
      using that frame by (intro head_readable_frame [of env ?w0 w1]) auto
    from deny_readable [OF this, where i = ?i and command = command and rsn = rsn]
    obtain rec w'' where
      e: "deny env w1 ?i command rsn =
       (Inr \<lparr>RunResult.decision = ''DENY'', intent = ?i, reason = rsn, exit_code = 1,
             output = None, receipt = Some rec\<rparr>, w'')"
      and r: "dict_get rec ''decision'' JNull = JStr ''DENY''"
      and v: "events w'' = events w1 @ [ReceiptWritten rec]"
      by blast
    from e d have 1: "result = Inr \<lparr>RunResult.decision = ''DENY'', intent = ?i, reason = rsn,
        exit_code = 1, output = None, receipt = Some rec\<rparr>" and 2: "w' = w''"
      by (simp_all only: prod.inject)
    from v 2 frame(2) have "events w' = events w @ [ReceiptWritten rec]" by (simp only:)
    with 1 r show ?thesis by (intro exI conjI)
  qed
  show ?thesis
    unfolding run d prod.case
  proof (intro conjI impI)
    show "executed w' = executed w" by (rule ex)
  next
    assume "head_readable env ?w0"
    then show "\<exists>rec rsn. result = Inr \<lparr>RunResult.decision = ''DENY'', intent = ?i, reason = rsn,
                          exit_code = 1, output = None, receipt = Some rec\<rparr>
                   \<and> dict_get rec ''decision'' JNull = JStr ''DENY''
                   \<and> events w' = events w @ [ReceiptWritten rec]"
      by (rule wr)
  qed
qed

text \<open>
  Claim C6. For every command whose intent is risky, without a valid token and without
  a way to ask, \<open>run\<close> returns the decision DENY with exit code 1, writes a DENY receipt
  and never executes the command. The code keeps the last part in every world
  (\<open>risky_without_token_denied\<close>) and breaks the rest after it has itself written a
  receipt that holds the next-line character U+0085: the run of \<open>sudo ls\<close>, for which
  no token is stored, then ends with the reader's exception, no result returned and no
  receipt written.
\<close>

theorem risky_run_without_receipt:
  "classify ''sudo ls'' \<in> RISKY_INTENTS
   \<and> (case run example_env example_world (''echo a'' @ [CHR 0x85] @ ''b'') True None of
         (first, w1) \<Rightarrow>
           (case first of Inl e \<Rightarrow> False | Inr r \<Rightarrow> RunResult.decision r = ''ALLOW'')
           \<and> find (valid_at example_env (clock w1 (ticks w1)) (classify ''sudo ls''))
                (stored_tokens w1) = None
           \<and> (case run example_env w1 ''sudo ls'' True None of
                 (second, w2) \<Rightarrow>
                   second = Inl JSONDecodeError \<and> written w2 = written w1
                   \<and> audit_dir w2 = audit_dir w1 \<and> executed w2 = executed w1))"
  by code_simp

lemma execute_command_eq:
  "execute_command env w command =
     (fst (execute_command env w command), w\<lparr>events := events w @ [Executed command]\<rparr>)"
  by (simp add: execute_command_def log_event_def)




text \<open>
  Claim C10. Within one call of \<open>run\<close>, the second classification and evaluation of Gate 3
  work on the same command as the first and give the same result, so once Gate 1 has
  let the command pass, the branch that raises \<open>ExecutionBlocked\<close> is never taken:
  whatever the world, the command and the way of confirming, \<open>run\<close> does not end with
  \<open>ExecutionBlocked\<close>.
\<close>

theorem never_execution_blocked:
  "fst (run env w command skip_confirm confirm_callback) \<noteq> Inl (ExecutionBlocked msg)"
proof
  assume a: "fst (run env w command skip_confirm confirm_callback) = Inl (ExecutionBlocked msg)"
  then obtain w' where r: "run env w command skip_confirm confirm_callback
      = (Inl (ExecutionBlocked msg), w')"
    by (cases "run env w command skip_confirm confirm_callback") simp
  let ?i = "classify command"
  let ?pol = "evaluate command ?i"
  show False
  proof (cases "PolicyResult.decision ?pol = DENY \<and> \<not> requires_auth ?pol")
    case True
    with r have "deny env w ?i command (PolicyResult.reason ?pol) = (Inl (ExecutionBlocked msg), w')"
      by (simp add: run_def Let_def)
    then show False using deny_error by blast
  next
    case open_gate: False
    show False
    proof (cases "requires_auth ?pol")
      case False
      with open_gate r have "execute_checked env w ?pol ?i command None None
          = (Inl (ExecutionBlocked msg), w')"
        by (simp add: run_def Let_def)
      with execute_checked_error [OF open_gate] show False by blast
    next
      case True
      obtain a w1 where au: "authorize env w ?i command skip_confirm confirm_callback = (a, w1)"
        by (cases "authorize env w ?i command skip_confirm confirm_callback")
      show False
      proof (cases a)
        case (Inl e)
        with au r True open_gate have "e = ExecutionBlocked msg"
          by (simp add: run_def Let_def)
        with Inl au authorize_error show False by blast
      next
        case (Inr x)
        show False
        proof (cases x)
          case (Refused rsn)
          with Inr au r True open_gate
          have "deny env w1 ?i command rsn = (Inl (ExecutionBlocked msg), w')"
            by (simp add: run_def Let_def)
          then show False using deny_error by blast
        next
          case (Granted tok_id exp)
          with Inr au r True open_gate
          have "execute_checked env w1 ?pol ?i command tok_id exp
              = (Inl (ExecutionBlocked msg), w')"
            by (simp add: run_def Let_def)
          with execute_checked_error [OF open_gate] show False by blast
        qed
      qed
    qed
  qed
qed

text \<open>
  Claim C7. At Gate 2b only an explicit affirmative lets the run go on, and every other
  outcome of the confirmation, a failing collaborator included, is a denial with a DENY
  receipt. The code does not do this for an injected callback that raises: the call is
  not guarded, the exception leaves \<open>run\<close>, and no receipt is written. (The terminal
  path is guarded: \<open>_interactive_confirm\<close> turns end of input and an interrupt into a
  refusal.) Here \<open>run\<close> is evaluated on a risky command, with no token stored and a
  callback that raises.
\<close>

theorem callback_failure_without_receipt:
  "(case run example_env (example_world\<lparr>tokens_file := None\<rparr>) ''rm -rf ./temp'' False
           (Some (\<lambda>i command. Raises)) of
      (result, w') \<Rightarrow>
        result = Inl ConfirmError \<and> audit_dir w' = [] \<and> written w' = []
        \<and> events w' = [CallbackInvoked ''file_delete'' ''rm -rf ./temp''])"
  by code_simp

text \<open>
  Claim C1. Every path of \<open>run\<close> that ends writes exactly one receipt before control
  returns to the caller. The path on which the confirmation callback raises ends
  without a receipt: here for a \<open>process_kill\<close> command whose stored token has expired.
\<close>

theorem terminating_path_without_receipt:
  "classify ''kill -9 1234'' = PROCESS_KILL
   \<and> fst (run example_env (example_world\<lparr>clock := \<lambda>n. 1120\<rparr>) ''kill -9 1234'' False
           (Some (\<lambda>i command. Raises))) = Inl ConfirmError
   \<and> written (snd (run example_env (example_world\<lparr>clock := \<lambda>n. 1120\<rparr>) ''kill -9 1234'' False
           (Some (\<lambda>i command. Raises)))) = []
   \<and> executed (snd (run example_env (example_world\<lparr>clock := \<lambda>n. 1120\<rparr>) ''kill -9 1234'' False
           (Some (\<lambda>i command. Raises)))) = []"
  by code_simp

section \<open>Writing and verifying the chain\<close>

text \<open>
  Three receipts written to an empty audit directory verify, with a total of three.
\<close>

lemma clean_chain_verifies:
  "(case write_receipt example_env example_world ''safe_echo'' ''echo one''
              ''ALLOW'' ''ok'' None None of
      (r1, w1) \<Rightarrow>
        (case write_receipt example_env w1 ''safe_echo'' ''echo two'' ''ALLOW'' ''ok'' None None of
           (r2, w2) \<Rightarrow>
             (case write_receipt example_env w2 ''safe_echo'' ''echo three'' ''ALLOW'' ''ok'' None None of
                (r3, w3) \<Rightarrow>
                  verify_chain example_env w3
                    = Inr \<lparr>ok = True, total = 3, failed_index = None, failed_reason = None\<rparr>)))"
  by code_simp

text \<open>
  Claim C3. Receipts appended by \<open>write_receipt\<close> to an empty log verify with
  \<open>ok = true\<close> and the number of receipts as total. The code breaks this for a command
  that holds the next-line character U+0085: \<open>json.dumps(..., ensure_ascii=False)\<close> writes
  it as it is, and \<open>splitlines\<close> takes it for a line boundary, so the one line written is
  read back as two pieces, neither of which is JSON. After one such receipt
  \<open>verify_chain\<close> ends with the reader's exception, and so does the next
  \<open>write_receipt\<close>, which reads the last line of the file.
\<close>

theorem next_line_character_breaks_chain:
  "audit_dir example_world = []
   \<and> (case write_receipt example_env example_world ''safe_echo'' (''echo a'' @ [CHR 0x85] @ ''b'')
              ''ALLOW'' ''Command allowed by policy.'' None None of
        (result, w') \<Rightarrow>
          (case result of Inl e \<Rightarrow> False | Inr rec \<Rightarrow> True)
          \<and> length (audit_dir w') = 1
          \<and> verify_chain example_env w' = Inl JSONDecodeError
          \<and> fst (write_receipt example_env w' ''safe_echo'' ''echo hi'' ''ALLOW''
                   ''Command allowed by policy.'' None None) = Inl JSONDecodeError)"
  by code_simp

section \<open>The trace of a run\<close>

text \<open>
  What \<open>run\<close> adds to the trace, on every path: at most one question (to the callback
  or to the terminal), and then, when it returns a result, exactly one receipt with the
  decision of the result, followed by the execution of the command when and only when
  the decision is ALLOW; when it ends with an exception, nothing.
\<close>

definition outcome_trace :: "string \<Rightarrow> exn + RunResult \<Rightarrow> event list \<Rightarrow> bool" where
  "outcome_trace command result wrote =
     (case result of
        Inl e \<Rightarrow> wrote = []
      | Inr r \<Rightarrow>
          (case receipt r of
             None \<Rightarrow> False
           | Some rec \<Rightarrow>
               dict_get rec ''decision'' JNull = JStr (RunResult.decision r)
               \<and> (if RunResult.decision r = ''ALLOW''
                    then wrote = [ReceiptWritten rec, Executed command]
                    else RunResult.decision r = ''DENY'' \<and> exit_code r = 1
                         \<and> wrote = [ReceiptWritten rec])))"

lemma deny_trace:
  assumes "deny env w i command rsn = (result, w')"
  shows "\<exists>wrote. events w' = events w @ wrote \<and> outcome_trace command result wrote"
proof (cases "write_receipt env w i command ''DENY'' rsn None None")
  case (Pair r w1)
  show ?thesis
  proof (cases r)
    case (Inl e)
    with Pair assms have "result = Inl e" "w' = w1" by (simp_all add: deny_def)
    moreover from Pair Inl have "events w1 = events w" using write_receipt_error by blast
    ultimately show ?thesis by (simp add: outcome_trace_def)
  next
    case (Inr rec)
    with Pair assms have "result = Inr \<lparr>RunResult.decision = ''DENY'', intent = i, reason = rsn,
        exit_code = 1, output = None, receipt = Some rec\<rparr>" "w' = w1"
      by (simp_all add: deny_def)
    moreover from Pair Inr have "events w1 = events w @ [ReceiptWritten rec]"
      "dict_get rec ''decision'' JNull = JStr ''DENY''"
      using write_receipt_written by blast+
    ultimately show ?thesis by (simp add: outcome_trace_def)
  qed
qed

lemma execute_checked_trace:
  assumes "\<not> (PolicyResult.decision (evaluate command (classify command)) = DENY
              \<and> \<not> requires_auth (evaluate command (classify command)))"
    and "execute_checked env w pol i command tok_id exp = (result, w')"
  shows "\<exists>wrote. events w' = events w @ wrote \<and> outcome_trace command result wrote"
proof -
  let ?rsn = "if PolicyResult.decision pol = ALLOW then PolicyResult.reason pol
             else ''Authorized (token or interactive).''"
  obtain r w1 where wr: "write_receipt env w i command ''ALLOW'' ?rsn tok_id exp = (r, w1)"
    by (cases "write_receipt env w i command ''ALLOW'' ?rsn tok_id exp")
  show ?thesis
  proof (cases r)
    case (Inl e)
    with wr assms have "result = Inl e" "w' = w1" by (simp_all add: execute_checked_open)
    moreover from wr Inl have "events w1 = events w" using write_receipt_error by blast
    ultimately show ?thesis by (simp add: outcome_trace_def)
  next
    case (Inr rec)
    obtain code out where ex: "fst (execute_command env w1 command) = (code, out)"
      by (cases "fst (execute_command env w1 command)")
    then have ec: "execute_command env w1 command
        = ((code, out), w1\<lparr>events := events w1 @ [Executed command]\<rparr>)"
      using execute_command_eq [of env w1 command] by simp
    from wr Inr have ev: "events w1 = events w @ [ReceiptWritten rec]"
      and dec: "dict_get rec ''decision'' JNull = JStr ''ALLOW''"
      using write_receipt_written by blast+
    from wr Inr ec assms have "result = Inr \<lparr>RunResult.decision = ''ALLOW'', intent = i,
                     reason = (if code = 0 then ''Executed successfully.''
                               else ''Command exited with code '' @ show_int code @ ''.''),
                     exit_code = code, output = Some out, receipt = Some rec\<rparr>"
      "w' = w1\<lparr>events := events w1 @ [Executed command]\<rparr>"
      by (simp_all add: execute_checked_open)
    with ev dec show ?thesis by (simp add: outcome_trace_def)
  qed
qed

lemma authorize_trace:
  assumes "authorize env w i command skip_confirm confirm_callback = (a, w1)"
  shows "events w1 = events w \<or> events w1 = events w @ [CallbackInvoked i command]
         \<or> events w1 = events w @ [Prompted i command]"
  using assms
  by (auto simp: authorize_def find_valid_token_eq interactive_confirm_def log_event_def
      split: option.splits if_splits callback_outcome.splits prod.splits)

lemma run_trace:
  assumes "run env w command skip_confirm confirm_callback = (result, w')"
  shows "\<exists>asked wrote. events w' = events w @ asked @ wrote
           \<and> (asked = [] \<or> asked = [CallbackInvoked (classify command) command]
                \<or> asked = [Prompted (classify command) command])
           \<and> outcome_trace command result wrote"
proof -
  let ?i = "classify command"
  let ?pol = "evaluate command ?i"
  show ?thesis
  proof (cases "PolicyResult.decision ?pol = DENY \<and> \<not> requires_auth ?pol")
    case True
    with assms have "deny env w ?i command (PolicyResult.reason ?pol) = (result, w')"
      by (simp add: run_def Let_def)
    from deny_trace [OF this] obtain wrote where
      "events w' = events w @ wrote" "outcome_trace command result wrote"
      by auto
    then show ?thesis by (intro exI [of _ "[]"] exI [of _ wrote]) simp
  next
    case open_gate: False
    show ?thesis
    proof (cases "requires_auth ?pol")
      case False
      with open_gate assms have "execute_checked env w ?pol ?i command None None = (result, w')"
        by (simp add: run_def Let_def)
      from execute_checked_trace [OF open_gate this] obtain wrote where
        "events w' = events w @ wrote" "outcome_trace command result wrote"
        by auto
      then show ?thesis by (intro exI [of _ "[]"] exI [of _ wrote]) simp
    next
      case True
      obtain a w1 where au: "authorize env w ?i command skip_confirm confirm_callback = (a, w1)"
        by (cases "authorize env w ?i command skip_confirm confirm_callback")
      from authorize_trace [OF au] obtain asked where asked: "events w1 = events w @ asked"
        "asked = [] \<or> asked = [CallbackInvoked ?i command] \<or> asked = [Prompted ?i command]"
        by auto
      have "\<exists>wrote. events w' = events w1 @ wrote \<and> outcome_trace command result wrote"
      proof (cases a)
        case (Inl e)
        with au assms True open_gate have "result = Inl e" "w' = w1"
          by (simp_all add: run_def Let_def)
        then show ?thesis by (simp add: outcome_trace_def)
      next
        case (Inr x)
        show ?thesis
        proof (cases x)
          case (Refused rsn)
          with Inr au assms True open_gate have "deny env w1 ?i command rsn = (result, w')"
            by (simp add: run_def Let_def)
          then show ?thesis by (rule deny_trace)
        next
          case (Granted tok_id exp)
          with Inr au assms True open_gate
          have "execute_checked env w1 ?pol ?i command tok_id exp = (result, w')"
            by (simp add: run_def Let_def)
          with open_gate show ?thesis by (rule execute_checked_trace)
        qed
      qed
      then obtain wrote where "events w' = events w1 @ wrote" "outcome_trace command result wrote"
        by auto
      with asked show ?thesis by (intro exI [of _ asked] exI [of _ wrote]) simp
    qed
  qed
qed

end
